theory Spec2Isabelle
  imports Complex_Main
begin

section \<open>Data model\<close>

text \<open>
  The solver of \<^verbatim>\<open>src/solver/FluidSolver.cpp\<close> works on a grid of cells. Every
  \<^verbatim>\<open>float\<close> of the source is modelled as a real number: rounding, infinities and
  NaN are not part of the model, except for the one quotient of \<^verbatim>\<open>advanceFrame\<close> whose
  divisor can be zero, which is given its IEEE value explicitly below.
\<close>

text \<open>
  Modelled from the spec: the cell type flag. \<^verbatim>\<open>FluidSolver.cpp\<close> reads and writes
  \<^verbatim>\<open>cell.cellType\<close> with the values \<^verbatim>\<open>Cell::FLUID\<close> and \<^verbatim>\<open>Cell::SOLID\<close>; the
  enumeration itself is not declared in the \<^verbatim>\<open>Cell.h\<close> at hand. The specification
  lists its values as FLUID, EMPTY and SOLID.
\<close>

datatype CellType = FLUID | EMPTY | SOLID

text \<open>
  \<^verbatim>\<open>struct Cell\<close>. The arrays \<^verbatim>\<open>vel[DIM_COUNT]\<close> and \<^verbatim>\<open>stagedVel[DIM_COUNT]\<close> have
  the two entries \<^verbatim>\<open>Cell::X\<close> and \<^verbatim>\<open>Cell::Y\<close>, one field each here. The pointers
  \<^verbatim>\<open>neighbors[]\<close> are not stored: the grid below resolves a neighbour by its
  coordinates.
\<close>

record Cell =
  pressure :: real
  velX :: real
  velY :: real
  stagedVelX :: real
  stagedVelY :: real
  cellType :: CellType

type_synonym Vector2 = "real \<times> real"

text \<open>
  Modelled from the spec: the class \<^verbatim>\<open>Grid\<close>, whose header and implementation are
  not among the sources. It owns a flat array of \<^verbatim>\<open>rows \<times> cols\<close> cells and is
  addressed by \<^verbatim>\<open>(x, y)\<close> and by flat index; \<^verbatim>\<open>pressureSolve\<close> itself computes the
  flat index of \<^verbatim>\<open>(x, y)\<close> as \<^verbatim>\<open>y * cols + x\<close>, which is the layout used here.
  \<^verbatim>\<open>getWidth\<close> and \<^verbatim>\<open>getHeight\<close> are the floating-point extents the grid was built
  from.
\<close>

record Grid =
  rowCount :: nat
  colCount :: nat
  getWidth :: real
  getHeight :: real
  cells :: "Cell list"

text \<open>
  Modelled from the spec: the two access operators of \<^verbatim>\<open>Grid\<close>, by coordinates and
  by flat index, which agree with each other. First the flat index of a coordinate pair,
  then \<^verbatim>\<open>_grid(x, y)\<close> where it is read.
\<close>

definition gridIndex :: "Grid \<Rightarrow> nat \<Rightarrow> nat \<Rightarrow> nat" where
  "gridIndex g x y = y * colCount g + x"

definition cellAt :: "Grid \<Rightarrow> nat \<Rightarrow> nat \<Rightarrow> Cell" where
  "cellAt g x y = cells g ! gridIndex g x y"

text \<open>\<^verbatim>\<open>_grid[i]\<close> used as a reference that is written through.\<close>

definition modifyIndex :: "(Cell \<Rightarrow> Cell) \<Rightarrow> nat \<Rightarrow> Grid \<Rightarrow> Grid" where
  "modifyIndex f i g = g\<lparr>cells := (cells g)[i := f (cells g ! i)]\<rparr>"

text \<open>\<^verbatim>\<open>_grid(x, y)\<close> used as a reference that is written through.\<close>

definition modifyCell :: "(Cell \<Rightarrow> Cell) \<Rightarrow> nat \<Rightarrow> nat \<Rightarrow> Grid \<Rightarrow> Grid" where
  "modifyCell f x y g = modifyIndex f (gridIndex g x y) g"

text \<open>
  The grids the source can work on without leaving its array: at least one row and one
  column, one cell per coordinate pair, and extents that the cell counts cover (the
  advection loops count up to \<^verbatim>\<open>getWidth()\<close> and \<^verbatim>\<open>getHeight()\<close>). The integer
  counters of the source are \<^verbatim>\<open>unsigned\<close> and its loop variables over the extents
  are \<^verbatim>\<open>float\<close>: the cell count is kept below \<open>2 ^ 32\<close> so that no product or
  difference of counters wraps, and each side at most \<open>2 ^ 23\<close>, up to where a float
  counts in steps of one from 0 and from 0.5. On any other grid the source reads or
  writes beyond its array, which a list does not do (it drops such a write); what is
  proved about the contents of cells is proved for these grids.
\<close>

definition wf_grid :: "Grid \<Rightarrow> bool" where
  "wf_grid g \<longleftrightarrow>
     0 < rowCount g \<and> 0 < colCount g \<and>
     length (cells g) = rowCount g * colCount g \<and>
     rowCount g * colCount g < 2 ^ 32 \<and>
     rowCount g \<le> 2 ^ 23 \<and> colCount g \<le> 2 ^ 23 \<and>
     getWidth g \<le> real (colCount g) \<and> getHeight g \<le> real (rowCount g)"

section \<open>Boundary pass\<close>

text \<open>
  \<^verbatim>\<open>FluidSolver::boundaryCollide\<close>, lines 199 to 224. The body of the first loop, for one
  column: four writes, in the order of the source.
\<close>

definition boundaryColumn :: "nat \<Rightarrow> nat \<Rightarrow> Grid \<Rightarrow> Grid" where
  "boundaryColumn rows col g =
     (let g1 = modifyCell (\<lambda>c. c\<lparr>velY := 0\<rparr>) col 0 g;
          g2 = modifyCell (\<lambda>c. c\<lparr>velX := 0\<rparr>) col (rows - 1) g1;
          g3 = modifyCell (\<lambda>c. c\<lparr>velY := 0\<rparr>) col (rows - 1) g2
      in modifyCell (\<lambda>c. c\<lparr>cellType := SOLID\<rparr>) col (rows - 1) g3)"

text \<open>The body of the second loop, for one row.\<close>

definition boundaryRow :: "nat \<Rightarrow> nat \<Rightarrow> Grid \<Rightarrow> Grid" where
  "boundaryRow cols row g =
     (let g1 = modifyCell (\<lambda>c. c\<lparr>velX := 0\<rparr>) 0 row g;
          g2 = modifyCell (\<lambda>c. c\<lparr>velX := 0\<rparr>) (cols - 1) row g1;
          g3 = modifyCell (\<lambda>c. c\<lparr>velY := 0\<rparr>) (cols - 1) row g2
      in modifyCell (\<lambda>c. c\<lparr>cellType := SOLID\<rparr>) (cols - 1) row g3)"

definition boundaryCollide :: "Grid \<Rightarrow> Grid" where
  "boundaryCollide g =
     (let rows = rowCount g; cols = colCount g;
          g1 = fold (boundaryColumn rows) [0..<cols] g
      in fold (boundaryRow cols) [0..<rows] g1)"

section \<open>Pressure step\<close>

text \<open>\<^verbatim>\<open>enum Neighbor\<close> of \<^verbatim>\<open>Cell.h\<close>.\<close>

datatype Neighbor = POS_X | POS_Y | POS_XY

text \<open>
  Modelled from the spec: the neighbour links, which \<^verbatim>\<open>Grid\<close> builds. A cell is
  linked to the cells at \<open>(+X)\<close>, \<open>(+Y)\<close> and \<open>(+X, +Y)\<close>, and a link is absent (a null
  pointer in the source) where the grid ends. The link is the neighbour's coordinates.
\<close>

fun neighbors :: "Grid \<Rightarrow> nat \<Rightarrow> nat \<Rightarrow> Neighbor \<Rightarrow> (nat \<times> nat) option" where
  "neighbors g x y POS_X = (if x + 1 < colCount g then Some (x + 1, y) else None)"
| "neighbors g x y POS_Y = (if y + 1 < rowCount g then Some (x, y + 1) else None)"
| "neighbors g x y POS_XY =
     (if x + 1 < colCount g \<and> y + 1 < rowCount g then Some (x + 1, y + 1) else None)"

text \<open>
  Modelled from the spec: \<^verbatim>\<open>Grid::getVelocityDivergence\<close>, the discrete divergence
  \<open>(vel_X(x+1,y) - vel_X(x,y)) + (vel_Y(x,y+1) - vel_Y(x,y))\<close>. The specification does not
  say what is read for the face beyond the last column or row; here a face without a
  cell contributes velocity 0.
\<close>

definition faceVelX :: "Grid \<Rightarrow> nat \<Rightarrow> nat \<Rightarrow> real" where
  "faceVelX g x y = (if x < colCount g \<and> y < rowCount g then velX (cellAt g x y) else 0)"

definition faceVelY :: "Grid \<Rightarrow> nat \<Rightarrow> nat \<Rightarrow> real" where
  "faceVelY g x y = (if x < colCount g \<and> y < rowCount g then velY (cellAt g x y) else 0)"

definition getVelocityDivergence :: "Grid \<Rightarrow> nat \<Rightarrow> nat \<Rightarrow> real" where
  "getVelocityDivergence g x y =
     (faceVelX g (x + 1) y - faceVelX g x y) + (faceVelY g x (y + 1) - faceVelY g x y)"

text \<open>The sum over all cells of the absolute value of the divergence.\<close>

definition totalAbsDivergence :: "Grid \<Rightarrow> real" where
  "totalAbsDivergence g =
     (\<Sum>x\<leftarrow>[0..<colCount g]. \<Sum>y\<leftarrow>[0..<rowCount g]. \<bar>getVelocityDivergence g x y\<bar>)"

text \<open>
  \<^verbatim>\<open>FluidSolver::pressureSolve\<close>, lines 161 to 196. The body of the first nested loop,
  lines 171 to 181, for the cell at \<open>(x, y)\<close>.
\<close>

definition pressureCell :: "real \<Rightarrow> nat \<Rightarrow> nat \<Rightarrow> Grid \<Rightarrow> Grid" where
  "pressureCell timeStepSec x y g =
     (let cell = cellAt g x y;
          pressureVel = timeStepSec * pressure cell
      in if cellType cell = FLUID then
           let g1 = modifyCell (\<lambda>c. c\<lparr>velX := velX c - pressureVel\<rparr>) x y g;
               g2 = modifyCell (\<lambda>c. c\<lparr>velY := velY c - pressureVel\<rparr>) x y g1;
               g3 = (case neighbors g x y POS_X of
                       Some (nx, ny) \<Rightarrow> modifyCell (\<lambda>c. c\<lparr>velX := velX c + pressureVel\<rparr>) nx ny g2
                     | None \<Rightarrow> g2)
           in (case neighbors g x y POS_Y of
                 Some (nx, ny) \<Rightarrow> modifyCell (\<lambda>c. c\<lparr>velY := velY c + pressureVel\<rparr>) nx ny g3
               | None \<Rightarrow> g3)
         else g)"

text \<open>
  The second nested loop fills a local vector with the negated divergence of every
  cell. The vector is never read again: the function ends at the \<^verbatim>\<open>TODO\<close> that
  stands for the solve.
\<close>

definition divergenceVector :: "Grid \<Rightarrow> real list" where
  "divergenceVector g =
     fold (\<lambda>x. fold (\<lambda>y d. d[y * colCount g + x := - getVelocityDivergence g x y])
                  [0..<rowCount g])
          [0..<colCount g] (replicate (colCount g * rowCount g) 0)"

definition pressureSolve :: "real \<Rightarrow> Grid \<Rightarrow> Grid" where
  "pressureSolve timeStepSec g =
     (let g' = fold (\<lambda>x. fold (\<lambda>y. pressureCell timeStepSec x y) [0..<rowCount g])
                 [0..<colCount g] g;
          divergence = divergenceVector g'
      in g')"

section \<open>Closed forms\<close>

text \<open>
  What the passes above do to a single cell, for the proofs below. First the boundary
  pass: what the body of its first loop does to the cell in row \<open>y\<close> of the column it
  visits, and what the body of its second loop does to the cell in column \<open>x\<close> of the
  row it visits.
\<close>

definition columnEffect :: "nat \<Rightarrow> nat \<Rightarrow> Cell \<Rightarrow> Cell" where
  "columnEffect rows y c =
     (let c1 = (if y = 0 then c\<lparr>velY := 0\<rparr> else c)
      in if y = rows - 1 then c1\<lparr>velX := 0, velY := 0, cellType := SOLID\<rparr> else c1)"

definition rowEffect :: "nat \<Rightarrow> nat \<Rightarrow> Cell \<Rightarrow> Cell" where
  "rowEffect cols x c =
     (let c1 = (if x = 0 then c\<lparr>velX := 0\<rparr> else c)
      in if x = cols - 1 then c1\<lparr>velX := 0, velY := 0, cellType := SOLID\<rparr> else c1)"

text \<open>
  The amount \<^verbatim>\<open>pressureVel\<close> that the loop body of \<^verbatim>\<open>pressureSolve\<close> moves for
  the cell at \<open>(a, b)\<close>: the time step times the cell's pressure if the cell is FLUID,
  and nothing otherwise.
\<close>

definition correction :: "real \<Rightarrow> Grid \<Rightarrow> nat \<Rightarrow> nat \<Rightarrow> real" where
  "correction timeStepSec g a b =
     (if cellType (cellAt g a b) = FLUID then timeStepSec * pressure (cellAt g a b) else 0)"

section \<open>Advection, body force and particles\<close>

text \<open>
  The two-dimensional vector type of \<^verbatim>\<open>Vector2.h\<close> is an external utility; a vector
  is a pair, with the usual sum, scaling and Euclidean length.
\<close>

definition vadd :: "Vector2 \<Rightarrow> Vector2 \<Rightarrow> Vector2" where
  "vadd p q = (fst p + fst q, snd p + snd q)"

definition vscale :: "Vector2 \<Rightarrow> real \<Rightarrow> Vector2" where
  "vscale p k = (fst p * k, snd p * k)"

definition magnitude :: "Vector2 \<Rightarrow> real" where
  "magnitude p = sqrt (fst p * fst p + snd p * snd p)"

text \<open>
  A loop \<^verbatim>\<open>for (float v = start; v < limit; v += 1.0f)\<close> runs for the counters
  \<open>k = 0, 1, \<dots>\<close> with \<open>start + k < limit\<close>.
\<close>

definition countUp :: "real \<Rightarrow> real \<Rightarrow> nat list" where
  "countUp start limit = [0..<nat \<lceil>limit - start\<rceil>]"

text \<open>
  The four tests that follow the backward trace in \<^verbatim>\<open>advectVelocity\<close>, lines 119 to
  126 and again 134 to 141, in the order and with the operands of the source: the second
  test compares the \<open>y\<close> coordinate with the grid width and then assigns \<open>x\<close>.
\<close>

definition clampBacktrace :: "Grid \<Rightarrow> Vector2 \<Rightarrow> Vector2" where
  "clampBacktrace g position =
     (let p1 = (if fst position < 0 then (0, snd position) else position);
          p2 = (if snd p1 > getWidth g then (getWidth g, snd p1) else p1);
          p3 = (if snd p2 < 0 then (fst p2, 0) else p2)
      in if snd p3 > getHeight g then (fst p3, getHeight g) else p3)"

text \<open>
  The clamp as the specification words it, for comparison with the one above: each
  coordinate is brought into the range of its own axis, \<open>[0, width]\<close> for \<open>x\<close> and
  \<open>[0, height]\<close> for \<open>y\<close>.
\<close>

definition clampPerAxis_spec :: "Grid \<Rightarrow> Vector2 \<Rightarrow> Vector2" where
  "clampPerAxis_spec g position =
     (min (max (fst position) 0) (getWidth g), min (max (snd position) 0) (getHeight g))"

text \<open>
  The point at which \<^verbatim>\<open>advectVelocity\<close> samples the field for the face at
  \<open>(x, y)\<close>. \<^verbatim>\<open>Grid::getVelocity\<close>, the interpolated velocity at a point, is not among
  the sources and is a parameter of every function that calls it.
\<close>

definition sourcePoint ::
  "(Grid \<Rightarrow> Vector2 \<Rightarrow> Vector2) \<Rightarrow> real \<Rightarrow> Grid \<Rightarrow> Vector2 \<Rightarrow> Vector2" where
  "sourcePoint getVelocity timeStepSec g position =
     clampBacktrace g (vadd position (vscale (getVelocity g position) (- timeStepSec)))"

text \<open>The bodies of the two face loops of \<^verbatim>\<open>advectVelocity\<close>, lines 116 to 127 and 131 to 142.\<close>

definition advectX ::
  "(Grid \<Rightarrow> Vector2 \<Rightarrow> Vector2) \<Rightarrow> real \<Rightarrow> nat \<Rightarrow> nat \<Rightarrow> Grid \<Rightarrow> Grid" where
  "advectX getVelocity timeStepSec i j g =
     (let position = sourcePoint getVelocity timeStepSec g (real i, real j + 1 / 2)
      in modifyCell (\<lambda>c. c\<lparr>stagedVelX := fst (getVelocity g position)\<rparr>) i j g)"

definition advectY ::
  "(Grid \<Rightarrow> Vector2 \<Rightarrow> Vector2) \<Rightarrow> real \<Rightarrow> nat \<Rightarrow> nat \<Rightarrow> Grid \<Rightarrow> Grid" where
  "advectY getVelocity timeStepSec i j g =
     (let position = sourcePoint getVelocity timeStepSec g (real i + 1 / 2, real j)
      in modifyCell (\<lambda>c. c\<lparr>stagedVelY := snd (getVelocity g position)\<rparr>) i j g)"

text \<open>
  \<^verbatim>\<open>Cell::commitStagedVel\<close>, as \<^verbatim>\<open>Cell.h\<close> documents it: the staged velocity becomes the
  cell's velocity and is itself not modified.
\<close>

definition commitStagedVel :: "Cell \<Rightarrow> Cell" where
  "commitStagedVel c = c\<lparr>velX := stagedVelX c, velY := stagedVelY c\<rparr>"

text \<open>\<^verbatim>\<open>FluidSolver::advectVelocity\<close>, lines 112 to 147.\<close>

definition advectVelocity :: "(Grid \<Rightarrow> Vector2 \<Rightarrow> Vector2) \<Rightarrow> real \<Rightarrow> Grid \<Rightarrow> Grid" where
  "advectVelocity getVelocity timeStepSec g =
     (let g1 = fold (\<lambda>i. fold (\<lambda>j. advectX getVelocity timeStepSec i j)
                               (countUp (1 / 2) (getHeight g)))
                 (countUp 0 (getWidth g)) g;
          g2 = fold (\<lambda>j. fold (\<lambda>i. advectY getVelocity timeStepSec i j)
                               (countUp (1 / 2) (getWidth g)))
                 (countUp 0 (getHeight g)) g1
      in fold (modifyIndex commitStagedVel) [0..<rowCount g * colCount g] g2)"

text \<open>\<^verbatim>\<open>FluidSolver::applyGlobalVelocity\<close>, lines 150 to 158.\<close>

definition applyGlobalVelocity :: "Vector2 \<Rightarrow> Grid \<Rightarrow> Grid" where
  "applyGlobalVelocity velocity g =
     fold (\<lambda>i. modifyIndex (\<lambda>c. c\<lparr>velY := velY c + snd velocity\<rparr>) i \<circ>
               modifyIndex (\<lambda>c. c\<lparr>velX := velX c + fst velocity\<rparr>) i)
          [0..<rowCount g * colCount g] g"

text \<open>\<^verbatim>\<open>FluidSolver::moveParticles\<close>, lines 227 to 235.\<close>

definition moveParticles ::
  "(Grid \<Rightarrow> Vector2 \<Rightarrow> Vector2) \<Rightarrow> real \<Rightarrow> Grid \<Rightarrow> Vector2 list \<Rightarrow> Vector2 list" where
  "moveParticles getVelocity timeStepSec g ps =
     map (\<lambda>p. vadd p (vscale (getVelocity g p) timeStepSec)) ps"

section \<open>The solver\<close>

text \<open>The data members of \<^verbatim>\<open>FluidSolver\<close>.\<close>

record FluidSolver =
  width :: real
  height :: real
  grid :: Grid
  frameReady :: bool
  particles :: "Vector2 list"

text \<open>\<^verbatim>\<open>FluidSolver::advanceTimeStep\<close>, lines 100 to 109.\<close>

definition gravity :: Vector2 where
  "gravity = (0, - 0.098)"

definition advanceTimeStep ::
  "(Grid \<Rightarrow> Vector2 \<Rightarrow> Vector2) \<Rightarrow> real \<Rightarrow> FluidSolver \<Rightarrow> FluidSolver" where
  "advanceTimeStep getVelocity timeStepSec s =
     (let g1 = advectVelocity getVelocity timeStepSec (grid s);
          g2 = applyGlobalVelocity (vscale gravity timeStepSec) g1;
          g3 = pressureSolve timeStepSec g2;
          g4 = boundaryCollide g3
      in s\<lparr>grid := g4, particles := moveParticles getVelocity timeStepSec g4 (particles s)\<rparr>)"

text \<open>
  The quotient \<^verbatim>\<open>CFLCoefficient / _grid.getMaxVelocity().magnitude()\<close> of line 84. The
  source divides without looking at the divisor. The dividend is positive and the
  divisor, a Euclidean length, is never negative; when it is zero the IEEE quotient is
  positive infinity, which is larger than every remaining frame time.
\<close>

datatype quotient = Finite real | PlusInfinity

definition floatDivide :: "real \<Rightarrow> real \<Rightarrow> quotient" where
  "floatDivide a b = (if b = 0 then PlusInfinity else Finite (a / b))"

text \<open>Lines 88 to 90: the step is cut down to the remaining frame time when it exceeds it.\<close>

fun capStep :: "quotient \<Rightarrow> real \<Rightarrow> real" where
  "capStep (Finite simTimeStepSec) frameTimeSec =
     (if simTimeStepSec > frameTimeSec then frameTimeSec else simTimeStepSec)"
| "capStep PlusInfinity frameTimeSec = frameTimeSec"

definition CFLCoefficient :: real where
  "CFLCoefficient = 2"

text \<open>
  The step length that one pass of the loop of \<^verbatim>\<open>advanceFrame\<close> uses.
  \<^verbatim>\<open>Grid::getMaxVelocity\<close> is not among the sources and is a parameter.
\<close>

definition simTimeStepSec :: "(Grid \<Rightarrow> Vector2) \<Rightarrow> real \<Rightarrow> FluidSolver \<Rightarrow> real" where
  "simTimeStepSec getMaxVelocity frameTimeSec s =
     capStep (floatDivide CFLCoefficient (magnitude (getMaxVelocity (grid s)))) frameTimeSec"

text \<open>
  The loop of \<^verbatim>\<open>FluidSolver::advanceFrame\<close>, lines 75 to 96, with the remaining frame
  time as its second state component. The loop may run forever, so the result is an
  option: \<open>None\<close> stands for a call that does not return. The two exits are those of
  the source. The update of the remaining time is read over the real numbers, where it
  always makes progress; the \<^verbatim>\<open>float\<close> subtraction of line 95 is rounded and can leave
  \<^verbatim>\<open>frameTimeSec\<close> as it was, and the \<^verbatim>\<open>float\<close> quotient of line 84 can also be zero
  or not a number. Whether the loop of the source ends from a state in which it runs is
  therefore not read off this function, and nothing below concludes it.
\<close>

partial_function (option) advanceFrameLoop ::
  "(Grid \<Rightarrow> Vector2 \<Rightarrow> Vector2) \<Rightarrow> (Grid \<Rightarrow> Vector2) \<Rightarrow> real \<Rightarrow> FluidSolver \<Rightarrow> FluidSolver option"
where
  "advanceFrameLoop getVelocity getMaxVelocity frameTimeSec s =
     (if frameReady s then Some s
      else if frameTimeSec \<le> 0 then Some (s\<lparr>frameReady := True\<rparr>)
      else let dt = simTimeStepSec getMaxVelocity frameTimeSec s
           in advanceFrameLoop getVelocity getMaxVelocity (frameTimeSec - dt)
                (advanceTimeStep getVelocity dt s))"

definition advanceFrame ::
  "(Grid \<Rightarrow> Vector2 \<Rightarrow> Vector2) \<Rightarrow> (Grid \<Rightarrow> Vector2) \<Rightarrow> FluidSolver \<Rightarrow> FluidSolver option" where
  "advanceFrame getVelocity getMaxVelocity s =
     advanceFrameLoop getVelocity getMaxVelocity (1 / 30) s"

section \<open>Construction and reset\<close>

text \<open>
  Modelled from the spec: the default cell and the constructor of \<^verbatim>\<open>Grid\<close>. A
  default-constructed cell has zero pressure and zero velocities and is not liquid. A
  grid built from a width and a height has one column and one row for every started
  unit of them, which is the range over which \<^verbatim>\<open>reset\<close> counts; for whole numbers it
  is the number itself.
\<close>

definition defaultCell :: Cell where
  "defaultCell =
     \<lparr>pressure = 0, velX = 0, velY = 0, stagedVelX = 0, stagedVelY = 0, cellType = EMPTY\<rparr>"

definition newGrid :: "real \<Rightarrow> real \<Rightarrow> Grid" where
  "newGrid w h =
     \<lparr>rowCount = nat \<lceil>h\<rceil>, colCount = nat \<lceil>w\<rceil>, getWidth = w, getHeight = h,
      cells = replicate (nat \<lceil>h\<rceil> * nat \<lceil>w\<rceil>) defaultCell\<rparr>"

text \<open>
  The body of the loops of \<^verbatim>\<open>FluidSolver::reset\<close>, lines 54 to 62, for the cell at
  \<open>(x, y)\<close>: four writes to the cell of the local grid, then sixteen particles appended
  to the particle vector.
\<close>

definition seedParticles :: "nat \<Rightarrow> nat \<Rightarrow> Vector2 list \<Rightarrow> Vector2 list" where
  "seedParticles x y ps =
     fold (\<lambda>i. fold (\<lambda>j qs. qs @ [(real x + 0.20 * real (i + 1), real y + 0.20 * real (j + 1))])
                    [0..<4])
          [0..<4] ps"

definition resetCell :: "nat \<Rightarrow> nat \<Rightarrow> Grid \<times> Vector2 list \<Rightarrow> Grid \<times> Vector2 list" where
  "resetCell x y st =
     (let g1 = modifyCell (\<lambda>c. c\<lparr>cellType := FLUID\<rparr>) x y (fst st);
          g2 = modifyCell (\<lambda>c. c\<lparr>pressure := 1\<rparr>) x y g1;
          g3 = modifyCell (\<lambda>c. c\<lparr>velX := sin (real x * 45.215 + real y * 88.15468) / 2\<rparr>) x y g2;
          g4 = modifyCell (\<lambda>c. c\<lparr>velY := sin (real x * 2.548 + real y * 121.1215) / 2\<rparr>) x y g3
      in (g4, seedParticles x y (snd st)))"

text \<open>\<^verbatim>\<open>FluidSolver::reset\<close>, lines 37 to 68.\<close>

definition reset :: "FluidSolver \<Rightarrow> FluidSolver" where
  "reset s =
     (let st = fold (\<lambda>y. fold (\<lambda>x. resetCell x y) (countUp 0 (width s)))
                 (countUp 0 (height s)) (newGrid (width s) (height s), [])
      in s\<lparr>grid := fst st, frameReady := False, particles := snd st\<rparr>)"

text \<open>
  The constructor \<^verbatim>\<open>FluidSolver::FluidSolver\<close>, lines 14 to 27: the members are
  initialised, \<^verbatim>\<open>reset\<close> is called and the object subscribes to the reset signal. The
  result is an option so that a failed construction can be told from a solver; the
  source has no statement that throws or leaves early, so \<open>None\<close> is never produced.
\<close>

definition newFluidSolver :: "real \<Rightarrow> real \<Rightarrow> FluidSolver option" where
  "newFluidSolver w h =
     Some (reset \<lparr>width = w, height = h, grid = newGrid w h, frameReady = False,
                  particles = []\<rparr>)"

section \<open>Stand-ins for the sampling functions\<close>

text \<open>
  Two functions that can take the place of the parameters \<^verbatim>\<open>getVelocity\<close> and
  \<^verbatim>\<open>getMaxVelocity\<close> where a concrete input is needed, and can be evaluated: the
  velocity of the cell that holds a point (the last cell for a point beyond the array,
  zero for a grid without cells), and the velocity of largest length among the cells.
\<close>

definition cellSampler :: "Grid \<Rightarrow> Vector2 \<Rightarrow> Vector2" where
  "cellSampler g p =
     (if cells g = [] then (0, 0)
      else let c = cells g ! min (gridIndex g (nat \<lfloor>fst p\<rfloor>) (nat \<lfloor>snd p\<rfloor>)) (length (cells g) - 1)
           in (velX c, velY c))"

definition maxVelocity :: "Grid \<Rightarrow> Vector2" where
  "maxVelocity g =
     fold (\<lambda>c best. if magnitude (velX c, velY c) > magnitude best then (velX c, velY c) else best)
       (cells g) (0, 0)"

section \<open>Example states\<close>

text \<open>
  A grid of whole-number extents all of whose cells are equal, and a solver state around
  a grid; they serve as concrete inputs.
\<close>

definition uniformGrid :: "nat \<Rightarrow> nat \<Rightarrow> Cell \<Rightarrow> Grid" where
  "uniformGrid cols rows c =
     \<lparr>rowCount = rows, colCount = cols, getWidth = real cols, getHeight = real rows,
      cells = replicate (rows * cols) c\<rparr>"

definition fluidCell :: "real \<Rightarrow> real \<Rightarrow> real \<Rightarrow> Cell" where
  "fluidCell p u v =
     \<lparr>pressure = p, velX = u, velY = v, stagedVelX = 0, stagedVelY = 0, cellType = FLUID\<rparr>"

definition solverOn :: "Grid \<Rightarrow> bool \<Rightarrow> FluidSolver" where
  "solverOn g ready =
     \<lparr>width = getWidth g, height = getHeight g, grid = g, frameReady = ready, particles = []\<rparr>"

text \<open>
  A 4 by 4 grid of FLUID cells of pressure 1 that is at rest except for the X velocity
  of the cell at \<open>(1, 1)\<close>, and the grid at rest after one boundary pass.
\<close>

definition disturbedGrid :: Grid where
  "disturbedGrid = modifyCell (\<lambda>c. c\<lparr>velX := 1\<rparr>) 1 1 (uniformGrid 4 4 (fluidCell 1 0 0))"

definition walledGrid :: Grid where
  "walledGrid = boundaryCollide (uniformGrid 4 4 (fluidCell 1 0 0))"

section \<open>Facts about grid access\<close>

lemma gridIndex_inj:
  assumes "x < colCount g" "x' < colCount g"
  shows "gridIndex g x y = gridIndex g x' y' \<longleftrightarrow> x = x' \<and> y = y'"
proof
  assume e: "gridIndex g x y = gridIndex g x' y'"
  have "(y * colCount g + x) mod colCount g = x" "(y' * colCount g + x') mod colCount g = x'"
    using assms by simp_all
  with e have xx: "x = x'" by (simp add: gridIndex_def)
  have "(y * colCount g + x) div colCount g = y" "(y' * colCount g + x') div colCount g = y'"
    using assms by simp_all
  with e have "y = y'" by (simp add: gridIndex_def)
  with xx show "x = x' \<and> y = y'" by simp
qed simp

lemma gridIndex_bound:
  assumes "x < colCount g" "y < rowCount g"
  shows "gridIndex g x y < rowCount g * colCount g"
proof -
  have "y * colCount g + x < y * colCount g + colCount g" using assms(1) by simp
  also have "\<dots> = Suc y * colCount g" by simp
  also have "\<dots> \<le> rowCount g * colCount g"
    using assms(2) by (intro mult_le_mono1) simp
  finally show ?thesis by (simp add: gridIndex_def)
qed

lemma gridIndex_less:
  assumes "length (cells g) = rowCount g * colCount g" "x < colCount g" "y < rowCount g"
  shows "gridIndex g x y < length (cells g)"
  using gridIndex_bound [OF assms(2,3)] by (simp add: assms(1))

lemma modifyIndex_frame [simp]:
  "rowCount (modifyIndex f i g) = rowCount g"
  "colCount (modifyIndex f i g) = colCount g"
  "getWidth (modifyIndex f i g) = getWidth g"
  "getHeight (modifyIndex f i g) = getHeight g"
  "length (cells (modifyIndex f i g)) = length (cells g)"
  by (simp_all add: modifyIndex_def)

lemma modifyIndex_nth:
  "j < length (cells g) \<Longrightarrow>
   cells (modifyIndex f i g) ! j = (if j = i then f (cells g ! j) else cells g ! j)"
  by (simp add: modifyIndex_def nth_list_update)

lemma modifyCell_frame [simp]:
  "rowCount (modifyCell f x y g) = rowCount g"
  "colCount (modifyCell f x y g) = colCount g"
  "getWidth (modifyCell f x y g) = getWidth g"
  "getHeight (modifyCell f x y g) = getHeight g"
  "length (cells (modifyCell f x y g)) = length (cells g)"
  by (simp_all add: modifyCell_def)

lemma gridIndex_modifyCell [simp]: "gridIndex (modifyCell f x y g) = gridIndex g"
  by (simp add: gridIndex_def fun_eq_iff)

lemma gridIndex_modifyIndex [simp]: "gridIndex (modifyIndex f i g) = gridIndex g"
  by (simp add: gridIndex_def fun_eq_iff)

text \<open>Reading a cell after a write through \<^verbatim>\<open>_grid(a, b)\<close>.\<close>

lemma cellAt_modifyCell:
  assumes "length (cells g) = rowCount g * colCount g"
    and "x < colCount g" "y < rowCount g" "a < colCount g"
  shows "cellAt (modifyCell f a b g) x y =
           (if x = a \<and> y = b then f (cellAt g x y) else cellAt g x y)"
proof -
  have "gridIndex g x y < length (cells g)"
    by (rule gridIndex_less [OF assms(1-3)])
  moreover have "gridIndex g x y = gridIndex g a b \<longleftrightarrow> x = a \<and> y = b"
    using assms by (simp add: gridIndex_inj)
  ultimately show ?thesis
    by (simp add: cellAt_def modifyCell_def modifyIndex_nth)
qed

lemma boundaryColumn_frame [simp]:
  "rowCount (boundaryColumn r col g) = rowCount g"
  "colCount (boundaryColumn r col g) = colCount g"
  "getWidth (boundaryColumn r col g) = getWidth g"
  "getHeight (boundaryColumn r col g) = getHeight g"
  "length (cells (boundaryColumn r col g)) = length (cells g)"
  by (simp_all add: boundaryColumn_def Let_def)

lemma boundaryRow_frame [simp]:
  "rowCount (boundaryRow k row g) = rowCount g"
  "colCount (boundaryRow k row g) = colCount g"
  "getWidth (boundaryRow k row g) = getWidth g"
  "getHeight (boundaryRow k row g) = getHeight g"
  "length (cells (boundaryRow k row g)) = length (cells g)"
  by (simp_all add: boundaryRow_def Let_def)

lemma cellAt_boundaryColumn:
  assumes "length (cells g) = rowCount g * colCount g"
    and "x < colCount g" "y < rowCount g" "col < colCount g"
  shows "cellAt (boundaryColumn (rowCount g) col g) x y =
           (if x = col then columnEffect (rowCount g) y (cellAt g x y) else cellAt g x y)"
  using assms by (simp add: boundaryColumn_def Let_def cellAt_modifyCell columnEffect_def)

lemma cellAt_boundaryRow:
  assumes "length (cells g) = rowCount g * colCount g"
    and "x < colCount g" "y < rowCount g" "row < rowCount g"
  shows "cellAt (boundaryRow (colCount g) row g) x y =
           (if y = row then rowEffect (colCount g) x (cellAt g x y) else cellAt g x y)"
  using assms by (simp add: boundaryRow_def Let_def cellAt_modifyCell rowEffect_def)

lemma fold_boundaryColumn_frame [simp]:
  "rowCount (fold (boundaryColumn r) ks g) = rowCount g"
  "colCount (fold (boundaryColumn r) ks g) = colCount g"
  "getWidth (fold (boundaryColumn r) ks g) = getWidth g"
  "getHeight (fold (boundaryColumn r) ks g) = getHeight g"
  "length (cells (fold (boundaryColumn r) ks g)) = length (cells g)"
  by (induction ks arbitrary: g; simp)+

lemma fold_boundaryRow_frame [simp]:
  "rowCount (fold (boundaryRow k) rs g) = rowCount g"
  "colCount (fold (boundaryRow k) rs g) = colCount g"
  "getWidth (fold (boundaryRow k) rs g) = getWidth g"
  "getHeight (fold (boundaryRow k) rs g) = getHeight g"
  "length (cells (fold (boundaryRow k) rs g)) = length (cells g)"
  by (induction rs arbitrary: g; simp)+

lemma cellAt_fold_boundaryColumn:
  assumes "length (cells g) = rowCount g * colCount g"
    and "x < colCount g" "y < rowCount g" "n \<le> colCount g"
  shows "cellAt (fold (boundaryColumn (rowCount g)) [0..<n] g) x y =
           (if x < n then columnEffect (rowCount g) y (cellAt g x y) else cellAt g x y)"
  using assms(4)
proof (induction n)
  case 0
  show ?case by simp
next
  case (Suc n)
  let ?g = "fold (boundaryColumn (rowCount g)) [0..<n] g"
  have "cellAt (boundaryColumn (rowCount ?g) n ?g) x y =
          (if x = n then columnEffect (rowCount ?g) y (cellAt ?g x y) else cellAt ?g x y)"
    using assms(1-3) Suc.prems by (intro cellAt_boundaryColumn) simp_all
  with Suc show ?case by (auto simp: less_Suc_eq)
qed

lemma cellAt_fold_boundaryRow:
  assumes "length (cells g) = rowCount g * colCount g"
    and "x < colCount g" "y < rowCount g" "n \<le> rowCount g"
  shows "cellAt (fold (boundaryRow (colCount g)) [0..<n] g) x y =
           (if y < n then rowEffect (colCount g) x (cellAt g x y) else cellAt g x y)"
  using assms(4)
proof (induction n)
  case 0
  show ?case by simp
next
  case (Suc n)
  let ?g = "fold (boundaryRow (colCount g)) [0..<n] g"
  have "cellAt (boundaryRow (colCount ?g) n ?g) x y =
          (if y = n then rowEffect (colCount ?g) x (cellAt ?g x y) else cellAt ?g x y)"
    using assms(1-3) Suc.prems by (intro cellAt_boundaryRow) simp_all
  with Suc show ?case by (auto simp: less_Suc_eq)
qed

text \<open>The boundary pass, cell by cell.\<close>

lemma cellAt_boundaryCollide:
  assumes "length (cells g) = rowCount g * colCount g"
    and "x < colCount g" "y < rowCount g"
  shows "cellAt (boundaryCollide g) x y =
           rowEffect (colCount g) x (columnEffect (rowCount g) y (cellAt g x y))"
proof -
  let ?g1 = "fold (boundaryColumn (rowCount g)) [0..<colCount g] g"
  have "cellAt (fold (boundaryRow (colCount ?g1)) [0..<rowCount ?g1] ?g1) x y =
          (if y < rowCount ?g1 then rowEffect (colCount ?g1) x (cellAt ?g1 x y) else cellAt ?g1 x y)"
    using assms by (intro cellAt_fold_boundaryRow) simp_all
  moreover have "cellAt ?g1 x y = columnEffect (rowCount g) y (cellAt g x y)"
    using assms by (simp add: cellAt_fold_boundaryColumn)
  ultimately show ?thesis
    using assms by (simp add: boundaryCollide_def Let_def)
qed

lemma boundaryCollide_frame [simp]:
  "rowCount (boundaryCollide g) = rowCount g"
  "colCount (boundaryCollide g) = colCount g"
  "getWidth (boundaryCollide g) = getWidth g"
  "getHeight (boundaryCollide g) = getHeight g"
  "length (cells (boundaryCollide g)) = length (cells g)"
  by (simp_all add: boundaryCollide_def Let_def)

lemma countUp_iff: "k \<in> set (countUp start limit) \<longleftrightarrow> start + real k < limit"
proof -
  have "k < nat \<lceil>limit - start\<rceil> \<longleftrightarrow> int k < \<lceil>limit - start\<rceil>"
    by (rule zless_nat_eq_int_zless)
  also have "\<dots> \<longleftrightarrow> real_of_int (int k) < limit - start"
    by (rule less_ceiling_iff)
  finally show ?thesis by (auto simp: countUp_def)
qed

text \<open>
  On a well-formed grid the face loops of \<^verbatim>\<open>advectVelocity\<close> stay inside the cell
  array.
\<close>

lemma advect_loops_in_range:
  assumes "wf_grid g"
  shows "i \<in> set (countUp 0 (getWidth g)) \<Longrightarrow> j \<in> set (countUp (1 / 2) (getHeight g)) \<Longrightarrow>
           gridIndex g i j < length (cells g)"
    and "i \<in> set (countUp (1 / 2) (getWidth g)) \<Longrightarrow> j \<in> set (countUp 0 (getHeight g)) \<Longrightarrow>
           gridIndex g i j < length (cells g)"
proof -
  have len: "length (cells g) = rowCount g * colCount g"
    and w: "getWidth g \<le> real (colCount g)" and h: "getHeight g \<le> real (rowCount g)"
    using assms by (simp_all add: wf_grid_def)
  show "gridIndex g i j < length (cells g)"
    if "i \<in> set (countUp 0 (getWidth g))" "j \<in> set (countUp (1 / 2) (getHeight g))"
  proof -
    have "real i < real (colCount g)" "real j < real (rowCount g)"
      using that w h by (simp_all add: countUp_iff)
    then show ?thesis
      using len by (intro gridIndex_less) simp_all
  qed
  show "gridIndex g i j < length (cells g)"
    if "i \<in> set (countUp (1 / 2) (getWidth g))" "j \<in> set (countUp 0 (getHeight g))"
  proof -
    have "real i < real (colCount g)" "real j < real (rowCount g)"
      using that w h by (simp_all add: countUp_iff)
    then show ?thesis
      using len by (intro gridIndex_less) simp_all
  qed
qed

section \<open>The pressure step, cell by cell\<close>

lemma map_modifyIndex:
  assumes "\<And>c. h (f c) = h c"
  shows "map h (cells (modifyIndex f i g)) = map h (cells g)"
proof (cases "i < length (cells g)")
  case True
  then show ?thesis
    by (simp add: modifyIndex_def map_update assms list_update_same_conv)
next
  case False
  then show ?thesis by (simp add: modifyIndex_def list_update_beyond)
qed

lemma map_modifyCell:
  assumes "\<And>c. h (f c) = h c"
  shows "map h (cells (modifyCell f x y g)) = map h (cells g)"
  unfolding modifyCell_def by (rule map_modifyIndex) (rule assms)

lemma pressureCell_frame [simp]:
  "rowCount (pressureCell dt a b g) = rowCount g"
  "colCount (pressureCell dt a b g) = colCount g"
  "getWidth (pressureCell dt a b g) = getWidth g"
  "getHeight (pressureCell dt a b g) = getHeight g"
  "length (cells (pressureCell dt a b g)) = length (cells g)"
  by (simp_all add: pressureCell_def Let_def split: option.splits)

lemma pressureCell_pressure [simp]:
  "map pressure (cells (pressureCell dt a b g)) = map pressure (cells g)"
  by (simp add: pressureCell_def Let_def map_modifyCell split: option.splits)

lemma pressureCell_cellType [simp]:
  "map cellType (cells (pressureCell dt a b g)) = map cellType (cells g)"
  by (simp add: pressureCell_def Let_def map_modifyCell split: option.splits)

lemma pressureCell_velX:
  assumes "length (cells g) = rowCount g * colCount g"
    and "x < colCount g" "y < rowCount g" "a < colCount g" "b < rowCount g"
  shows "velX (cellAt (pressureCell dt a b g) x y) =
           velX (cellAt g x y) - (if x = a \<and> y = b then correction dt g a b else 0)
             + (if x = a + 1 \<and> y = b then correction dt g a b else 0)"
  using assms
  by (simp add: pressureCell_def Let_def cellAt_modifyCell correction_def)

lemma pressureCell_velY:
  assumes "length (cells g) = rowCount g * colCount g"
    and "x < colCount g" "y < rowCount g" "a < colCount g" "b < rowCount g"
  shows "velY (cellAt (pressureCell dt a b g) x y) =
           velY (cellAt g x y) - (if x = a \<and> y = b then correction dt g a b else 0)
             + (if x = a \<and> y = b + 1 then correction dt g a b else 0)"
  using assms
  by (simp add: pressureCell_def Let_def cellAt_modifyCell correction_def)

lemma fold_pressureCell_frame [simp]:
  "rowCount (fold (pressureCell dt a) bs g) = rowCount g"
  "colCount (fold (pressureCell dt a) bs g) = colCount g"
  "getWidth (fold (pressureCell dt a) bs g) = getWidth g"
  "getHeight (fold (pressureCell dt a) bs g) = getHeight g"
  "length (cells (fold (pressureCell dt a) bs g)) = length (cells g)"
  "map pressure (cells (fold (pressureCell dt a) bs g)) = map pressure (cells g)"
  "map cellType (cells (fold (pressureCell dt a) bs g)) = map cellType (cells g)"
  by (induction bs arbitrary: g; simp)+

lemma fold_fold_pressureCell_frame [simp]:
  "rowCount (fold (\<lambda>a. fold (pressureCell dt a) bs) as g) = rowCount g"
  "colCount (fold (\<lambda>a. fold (pressureCell dt a) bs) as g) = colCount g"
  "getWidth (fold (\<lambda>a. fold (pressureCell dt a) bs) as g) = getWidth g"
  "getHeight (fold (\<lambda>a. fold (pressureCell dt a) bs) as g) = getHeight g"
  "length (cells (fold (\<lambda>a. fold (pressureCell dt a) bs) as g)) = length (cells g)"
  "map pressure (cells (fold (\<lambda>a. fold (pressureCell dt a) bs) as g)) = map pressure (cells g)"
  "map cellType (cells (fold (\<lambda>a. fold (pressureCell dt a) bs) as g)) = map cellType (cells g)"
  by (induction as arbitrary: g; simp)+

lemma correction_cong:
  assumes "map pressure (cells g') = map pressure (cells g)"
    and "map cellType (cells g') = map cellType (cells g)"
    and "colCount g' = colCount g"
    and "gridIndex g a b < length (cells g)"
  shows "correction dt g' a b = correction dt g a b"
proof -
  let ?i = "gridIndex g a b"
  have len: "length (cells g') = length (cells g)"
    using assms(1) by (rule map_eq_imp_length_eq)
  have i: "gridIndex g' a b = ?i"
    by (simp add: gridIndex_def assms(3))
  have "pressure (cells g' ! ?i) = map pressure (cells g') ! ?i"
    using assms(4) len by simp
  also have "\<dots> = pressure (cells g ! ?i)"
    using assms(4) by (simp add: assms(1))
  finally have p: "pressure (cells g' ! ?i) = pressure (cells g ! ?i)" .
  have "cellType (cells g' ! ?i) = map cellType (cells g') ! ?i"
    using assms(4) len by simp
  also have "\<dots> = cellType (cells g ! ?i)"
    using assms(4) by (simp add: assms(2))
  finally have t: "cellType (cells g' ! ?i) = cellType (cells g ! ?i)" .
  show ?thesis
    by (simp add: correction_def cellAt_def i p t)
qed

text \<open>One column of the sweep: the rows below \<open>m\<close> of column \<open>a\<close> have been visited.\<close>

lemma fold_pressureCell_velX:
  assumes "length (cells g) = rowCount g * colCount g"
    and "x < colCount g" "y < rowCount g" "a < colCount g" "m \<le> rowCount g"
  shows "velX (cellAt (fold (pressureCell dt a) [0..<m] g) x y) =
           velX (cellAt g x y) - (if x = a \<and> y < m then correction dt g a y else 0)
             + (if x = a + 1 \<and> y < m then correction dt g a y else 0)"
  using assms(5)
proof (induction m)
  case 0
  show ?case by simp
next
  case (Suc m)
  let ?g = "fold (pressureCell dt a) [0..<m] g"
  have m: "m < rowCount g" using Suc.prems by simp
  have c: "correction dt ?g a m = correction dt g a m"
    using assms(1,4) m by (intro correction_cong) (simp_all add: gridIndex_bound)
  have "velX (cellAt (pressureCell dt a m ?g) x y) =
          velX (cellAt ?g x y) - (if x = a \<and> y = m then correction dt ?g a m else 0)
            + (if x = a + 1 \<and> y = m then correction dt ?g a m else 0)"
    using assms(1-4) m by (intro pressureCell_velX) simp_all
  with Suc c show ?case by (auto simp: less_Suc_eq)
qed

lemma fold_pressureCell_velY:
  assumes "length (cells g) = rowCount g * colCount g"
    and "x < colCount g" "y < rowCount g" "a < colCount g" "m \<le> rowCount g"
  shows "velY (cellAt (fold (pressureCell dt a) [0..<m] g) x y) =
           velY (cellAt g x y) - (if x = a \<and> y < m then correction dt g a y else 0)
             + (if x = a \<and> 0 < y \<and> y - 1 < m then correction dt g a (y - 1) else 0)"
  using assms(5)
proof (induction m)
  case 0
  show ?case by simp
next
  case (Suc m)
  let ?g = "fold (pressureCell dt a) [0..<m] g"
  have m: "m < rowCount g" using Suc.prems by simp
  have c: "correction dt ?g a m = correction dt g a m"
    using assms(1,4) m by (intro correction_cong) (simp_all add: gridIndex_bound)
  have "velY (cellAt (pressureCell dt a m ?g) x y) =
          velY (cellAt ?g x y) - (if x = a \<and> y = m then correction dt ?g a m else 0)
            + (if x = a \<and> y = m + 1 then correction dt ?g a m else 0)"
    using assms(1-4) m by (intro pressureCell_velY) simp_all
  with Suc c show ?case by (auto simp: less_Suc_eq)
qed

text \<open>The whole sweep: the columns left of \<open>n\<close> have been visited.\<close>

lemma sweep_velX:
  assumes "length (cells g) = rowCount g * colCount g"
    and "x < colCount g" "y < rowCount g" "n \<le> colCount g"
  shows "velX (cellAt (fold (\<lambda>a. fold (pressureCell dt a) [0..<rowCount g]) [0..<n] g) x y) =
           velX (cellAt g x y) - (if x < n then correction dt g x y else 0)
             + (if 0 < x \<and> x - 1 < n then correction dt g (x - 1) y else 0)"
  using assms(4)
proof (induction n)
  case 0
  show ?case by simp
next
  case (Suc n)
  let ?g = "fold (\<lambda>a. fold (pressureCell dt a) [0..<rowCount g]) [0..<n] g"
  have n: "n < colCount g" using Suc.prems by simp
  have c: "correction dt ?g n y = correction dt g n y"
    using assms(1,3) n by (intro correction_cong) (simp_all add: gridIndex_bound)
  have "velX (cellAt (fold (pressureCell dt n) [0..<rowCount ?g] ?g) x y) =
          velX (cellAt ?g x y) - (if x = n \<and> y < rowCount ?g then correction dt ?g n y else 0)
            + (if x = n + 1 \<and> y < rowCount ?g then correction dt ?g n y else 0)"
    using assms(1-3) n by (intro fold_pressureCell_velX) simp_all
  with Suc c assms(3) show ?case by (auto simp: less_Suc_eq)
qed

lemma sweep_velY:
  assumes "length (cells g) = rowCount g * colCount g"
    and "x < colCount g" "y < rowCount g" "n \<le> colCount g"
  shows "velY (cellAt (fold (\<lambda>a. fold (pressureCell dt a) [0..<rowCount g]) [0..<n] g) x y) =
           velY (cellAt g x y) - (if x < n then correction dt g x y else 0)
             + (if x < n \<and> 0 < y then correction dt g x (y - 1) else 0)"
  using assms(4)
proof (induction n)
  case 0
  show ?case by simp
next
  case (Suc n)
  let ?g = "fold (\<lambda>a. fold (pressureCell dt a) [0..<rowCount g]) [0..<n] g"
  have n: "n < colCount g" using Suc.prems by simp
  have c: "correction dt ?g n y = correction dt g n y"
    using assms(1,3) n by (intro correction_cong) (simp_all add: gridIndex_bound)
  have c': "correction dt ?g n (y - 1) = correction dt g n (y - 1)"
    using assms(1,3) n by (intro correction_cong) (simp_all add: gridIndex_bound)
  have "velY (cellAt (fold (pressureCell dt n) [0..<rowCount ?g] ?g) x y) =
          velY (cellAt ?g x y) - (if x = n \<and> y < rowCount ?g then correction dt ?g n y else 0)
            + (if x = n \<and> 0 < y \<and> y - 1 < rowCount ?g then correction dt ?g n (y - 1) else 0)"
    using assms(1-3) n by (intro fold_pressureCell_velY) simp_all
  with Suc c c' assms(3) show ?case by (auto simp: less_Suc_eq)
qed

lemma pressureSolve_frame [simp]:
  "rowCount (pressureSolve dt g) = rowCount g"
  "colCount (pressureSolve dt g) = colCount g"
  "getWidth (pressureSolve dt g) = getWidth g"
  "getHeight (pressureSolve dt g) = getHeight g"
  "length (cells (pressureSolve dt g)) = length (cells g)"
  "map pressure (cells (pressureSolve dt g)) = map pressure (cells g)"
  "map cellType (cells (pressureSolve dt g)) = map cellType (cells g)"
  by (simp_all add: pressureSolve_def Let_def)

text \<open>
  The velocities after the pressure step: every cell gives up its own correction and
  receives that of the cell before it on the same axis.
\<close>

lemma pressureSolve_velX:
  assumes "length (cells g) = rowCount g * colCount g"
    and "x < colCount g" "y < rowCount g"
  shows "velX (cellAt (pressureSolve dt g) x y) =
           velX (cellAt g x y) - correction dt g x y
             + (if 0 < x then correction dt g (x - 1) y else 0)"
proof -
  have "x - 1 < colCount g" using assms(2) by simp
  with sweep_velX [OF assms, of "colCount g" dt] assms(2) show ?thesis
    by (simp add: pressureSolve_def Let_def)
qed

lemma pressureSolve_velY:
  assumes "length (cells g) = rowCount g * colCount g"
    and "x < colCount g" "y < rowCount g"
  shows "velY (cellAt (pressureSolve dt g) x y) =
           velY (cellAt g x y) - correction dt g x y
             + (if 0 < y then correction dt g x (y - 1) else 0)"
  using sweep_velY [OF assms, of "colCount g" dt] assms(2)
  by (simp add: pressureSolve_def Let_def)

section \<open>Reset\<close>

lemma upt_0_4: "[0..<4] = [0, 1, 2, 3]"
  by (simp add: upt_rec)

lemma countUp_0_4: "countUp 0 4 = [0, 1, 2, 3]"
  by (simp add: countUp_def upt_rec)

lemma len_seed: "length (seedParticles x y ps) = length ps + 16"
  by (simp add: seedParticles_def upt_rec)

lemma resetCell_particles: "length (snd (resetCell x y st)) = length (snd st) + 16"
  by (simp add: resetCell_def Let_def len_seed)

lemma fold_resetCell_particles:
  "length (snd (fold (\<lambda>x. resetCell x y) xs st)) = length (snd st) + 16 * length xs"
  by (induction xs arbitrary: st) (simp_all add: resetCell_particles)

lemma fold_fold_resetCell_particles:
  "length (snd (fold (\<lambda>y. fold (\<lambda>x. resetCell x y) xs) ys st)) =
     length (snd st) + 16 * length xs * length ys"
  by (induction ys arbitrary: st) (simp_all add: fold_resetCell_particles algebra_simps)

lemma reset_particles:
  "length (particles (reset s)) = 16 * nat \<lceil>width s\<rceil> * nat \<lceil>height s\<rceil>"
  by (simp add: reset_def Let_def fold_fold_resetCell_particles countUp_def)

text \<open>The particles that \<^verbatim>\<open>reset\<close> leaves, in the order in which they are appended.\<close>

lemma seedParticles_eq:
  "seedParticles x y ps =
     ps @ [(real x + 0.20 * real (i + 1), real y + 0.20 * real (j + 1)). i \<leftarrow> [0..<4], j \<leftarrow> [0..<4]]"
  by (simp add: seedParticles_def upt_0_4)

lemma resetCell_snd:
  "snd (resetCell x y st) =
     snd st @ [(real x + 0.20 * real (i + 1), real y + 0.20 * real (j + 1)). i \<leftarrow> [0..<4], j \<leftarrow> [0..<4]]"
  by (simp add: resetCell_def Let_def seedParticles_eq)

lemma fold_resetCell_snd:
  "snd (fold (\<lambda>x. resetCell x y) xs st) =
     snd st @ [(real x + 0.20 * real (i + 1), real y + 0.20 * real (j + 1)).
                 x \<leftarrow> xs, i \<leftarrow> [0..<4], j \<leftarrow> [0..<4]]"
proof (induction xs arbitrary: st)
  case Nil
  show ?case by simp
next
  case (Cons x xs)
  show ?case
    by (simp add: Cons.IH resetCell_snd)
qed

lemma fold_fold_resetCell_snd:
  "snd (fold (\<lambda>y. fold (\<lambda>x. resetCell x y) xs) ys st) =
     snd st @ [(real x + 0.20 * real (i + 1), real y + 0.20 * real (j + 1)).
                 y \<leftarrow> ys, x \<leftarrow> xs, i \<leftarrow> [0..<4], j \<leftarrow> [0..<4]]"
proof (induction ys arbitrary: st)
  case Nil
  show ?case by simp
next
  case (Cons y ys)
  show ?case
    by (simp add: Cons.IH fold_resetCell_snd)
qed

lemma reset_particles_eq:
  "particles (reset s) =
     [(real x + 0.20 * real (i + 1), real y + 0.20 * real (j + 1)).
        y \<leftarrow> countUp 0 (height s), x \<leftarrow> countUp 0 (width s), i \<leftarrow> [0..<4], j \<leftarrow> [0..<4]]"
  by (simp add: reset_def Let_def fold_fold_resetCell_snd)

lemma tracers_distinct:
  "distinct [(real x + 0.20 * real (i + 1), real y + 0.20 * real (j + 1)).
               y \<leftarrow> [0..<4], x \<leftarrow> [0..<(4::nat)], i \<leftarrow> [0..<(4::nat)], j \<leftarrow> [0..<(4::nat)]]"
  by (simp add: upt_0_4)

section \<open>No stage writes a pressure\<close>

lemma fold_modifyIndex_map:
  assumes "\<And>c. h (f c) = h c"
  shows "map h (cells (fold (modifyIndex f) is g)) = map h (cells g)"
  by (induction "is" arbitrary: g) (simp_all add: map_modifyIndex assms)

lemma advectX_pressure [simp]:
  "map pressure (cells (advectX gv dt i j g)) = map pressure (cells g)"
  by (simp add: advectX_def Let_def map_modifyCell)

lemma advectY_pressure [simp]:
  "map pressure (cells (advectY gv dt i j g)) = map pressure (cells g)"
  by (simp add: advectY_def Let_def map_modifyCell)

lemma fold_advectX_pressure [simp]:
  "map pressure (cells (fold (advectX gv dt i) js g)) = map pressure (cells g)"
  by (induction js arbitrary: g) simp_all

lemma fold_fold_advectX_pressure [simp]:
  "map pressure (cells (fold (\<lambda>i. fold (advectX gv dt i) js) is g)) = map pressure (cells g)"
  by (induction "is" arbitrary: g) simp_all

lemma fold_advectY_pressure [simp]:
  "map pressure (cells (fold (\<lambda>i. advectY gv dt i j) is g)) = map pressure (cells g)"
  by (induction "is" arbitrary: g) simp_all

lemma fold_fold_advectY_pressure [simp]:
  "map pressure (cells (fold (\<lambda>j. fold (\<lambda>i. advectY gv dt i j) is) js g)) = map pressure (cells g)"
  by (induction js arbitrary: g) simp_all

lemma advectVelocity_pressure [simp]:
  "map pressure (cells (advectVelocity gv dt g)) = map pressure (cells g)"
  by (simp add: advectVelocity_def Let_def fold_modifyIndex_map commitStagedVel_def)

lemma applyGlobalVelocity_pressure_aux:
  "map pressure (cells (fold (\<lambda>i. modifyIndex (\<lambda>c. c\<lparr>velY := velY c + b\<rparr>) i \<circ>
        modifyIndex (\<lambda>c. c\<lparr>velX := velX c + a\<rparr>) i) is g)) = map pressure (cells g)"
  by (induction "is" arbitrary: g) (simp_all add: map_modifyIndex)

lemma applyGlobalVelocity_pressure [simp]:
  "map pressure (cells (applyGlobalVelocity v g)) = map pressure (cells g)"
  by (simp add: applyGlobalVelocity_def applyGlobalVelocity_pressure_aux)

lemma boundaryColumn_pressure [simp]:
  "map pressure (cells (boundaryColumn r col g)) = map pressure (cells g)"
  by (simp add: boundaryColumn_def Let_def map_modifyCell)

lemma boundaryRow_pressure [simp]:
  "map pressure (cells (boundaryRow k row g)) = map pressure (cells g)"
  by (simp add: boundaryRow_def Let_def map_modifyCell)

lemma fold_boundaryColumn_pressure [simp]:
  "map pressure (cells (fold (boundaryColumn r) ks g)) = map pressure (cells g)"
  by (induction ks arbitrary: g) simp_all

lemma fold_boundaryRow_pressure [simp]:
  "map pressure (cells (fold (boundaryRow k) rs g)) = map pressure (cells g)"
  by (induction rs arbitrary: g) simp_all

lemma boundaryCollide_pressure [simp]:
  "map pressure (cells (boundaryCollide g)) = map pressure (cells g)"
  by (simp add: boundaryCollide_def Let_def)

section \<open>Facts about the example states\<close>

lemma disturbedGrid_cells:
  "disturbedGrid = \<lparr>rowCount = 4, colCount = 4, getWidth = 4, getHeight = 4,
     cells = [fluidCell 1 0 0, fluidCell 1 0 0, fluidCell 1 0 0, fluidCell 1 0 0,
              fluidCell 1 0 0, fluidCell 1 1 0, fluidCell 1 0 0, fluidCell 1 0 0,
              fluidCell 1 0 0, fluidCell 1 0 0, fluidCell 1 0 0, fluidCell 1 0 0,
              fluidCell 1 0 0, fluidCell 1 0 0, fluidCell 1 0 0, fluidCell 1 0 0]\<rparr>"
  by (simp add: disturbedGrid_def uniformGrid_def modifyCell_def modifyIndex_def gridIndex_def
      fluidCell_def numeral_eq_Suc)

lemma pressureSolve_disturbedGrid:
  "pressureSolve 1 disturbedGrid = \<lparr>rowCount = 4, colCount = 4, getWidth = 4, getHeight = 4,
     cells = [fluidCell 1 (- 1) (- 1), fluidCell 1 0 (- 1), fluidCell 1 0 (- 1), fluidCell 1 0 (- 1),
              fluidCell 1 (- 1) 0, fluidCell 1 1 0, fluidCell 1 0 0, fluidCell 1 0 0,
              fluidCell 1 (- 1) 0, fluidCell 1 0 0, fluidCell 1 0 0, fluidCell 1 0 0,
              fluidCell 1 (- 1) 0, fluidCell 1 0 0, fluidCell 1 0 0, fluidCell 1 0 0]\<rparr>"
  by (simp add: disturbedGrid_cells pressureSolve_def upt_0_4 pressureCell_def Let_def
      modifyCell_def modifyIndex_def gridIndex_def fluidCell_def cellAt_def)

lemma wf_uniformGrid:
  "0 < n \<Longrightarrow> 0 < m \<Longrightarrow> n * m < 2 ^ 32 \<Longrightarrow> n \<le> 2 ^ 23 \<Longrightarrow> m \<le> 2 ^ 23 \<Longrightarrow>
   wf_grid (uniformGrid n m c)"
  by (simp add: wf_grid_def uniformGrid_def mult.commute)

lemma cellAt_uniformGrid: "x < n \<Longrightarrow> y < m \<Longrightarrow> cellAt (uniformGrid n m c) x y = c"
proof -
  assume a: "x < n" "y < m"
  have "gridIndex (uniformGrid n m c) x y < rowCount (uniformGrid n m c) * colCount (uniformGrid n m c)"
    by (rule gridIndex_bound) (simp_all add: uniformGrid_def a)
  then show ?thesis
    by (simp add: cellAt_def uniformGrid_def gridIndex_def)
qed

lemma wf_walledGrid: "wf_grid walledGrid"
  by (simp add: walledGrid_def wf_grid_def uniformGrid_def)

lemma cellAt_walledGrid:
  assumes "x < 4" "y < 4"
  shows "cellAt walledGrid x y = rowEffect 4 x (columnEffect 4 y (fluidCell 1 0 0))"
proof -
  let ?g = "uniformGrid 4 4 (fluidCell 1 0 0)"
  have "cellAt (boundaryCollide ?g) x y =
          rowEffect (colCount ?g) x (columnEffect (rowCount ?g) y (cellAt ?g x y))"
    using assms by (intro cellAt_boundaryCollide) (simp_all add: uniformGrid_def)
  then show ?thesis
    using assms by (simp add: walledGrid_def cellAt_uniformGrid) (simp add: uniformGrid_def)
qed

lemma all_fluid_cellAt:
  assumes "length (cells g) = rowCount g * colCount g"
    and "map cellType (cells g) = replicate (rowCount g * colCount g) FLUID"
    and "x < colCount g" "y < rowCount g"
  shows "cellType (cellAt g x y) = FLUID"
proof -
  have i: "gridIndex g x y < rowCount g * colCount g"
    using assms(3,4) by (rule gridIndex_bound)
  then have "cellType (cells g ! gridIndex g x y) = map cellType (cells g) ! gridIndex g x y"
    by (simp add: assms(1))
  also have "\<dots> = FLUID"
    using i by (simp add: assms(2))
  finally show ?thesis by (simp add: cellAt_def)
qed

lemma wf_disturbedGrid: "wf_grid disturbedGrid"
  by (simp add: disturbedGrid_cells wf_grid_def)



section \<open>The claims\<close>

text \<open>
  C1 asks that one call of \<^verbatim>\<open>pressureSolve\<close> on a 4 by 4 grid of FLUID cells with a
  divergent velocity field strictly reduce the sum of the absolute divergence. The
  function solves for no pressure; on the grid below, with pressure 1 in every cell and
  time step 1, the sum is 2 before the call and 10 after it.
\<close>

theorem C1_divergence_grows:
  "rowCount disturbedGrid = 4 \<and> colCount disturbedGrid = 4 \<and>
   map cellType (cells disturbedGrid) = replicate 16 FLUID \<and>
   totalAbsDivergence disturbedGrid = 2 \<and>
   totalAbsDivergence (pressureSolve 1 disturbedGrid) = 10"
proof -
  have "totalAbsDivergence disturbedGrid = 2"
    by (simp add: disturbedGrid_cells totalAbsDivergence_def gridIndex_def fluidCell_def upt_0_4
        getVelocityDivergence_def faceVelX_def faceVelY_def cellAt_def)
  moreover have "totalAbsDivergence (pressureSolve 1 disturbedGrid) = 10"
    by (simp add: pressureSolve_disturbedGrid totalAbsDivergence_def gridIndex_def fluidCell_def
        upt_0_4 getVelocityDivergence_def faceVelX_def faceVelY_def cellAt_def)
  moreover have "map cellType (cells disturbedGrid) = replicate 16 FLUID"
    by (simp add: disturbedGrid_cells fluidCell_def numeral_eq_Suc)
  ultimately show ?thesis
    by (simp add: disturbedGrid_cells)
qed

text \<open>
  C1, as the code has it. On a grid of FLUID cells one call of \<^verbatim>\<open>pressureSolve\<close>
  shifts the X velocity of every cell by the time step times the difference between the
  pressure of the cell before it in X and its own pressure, and the Y velocity
  likewise with the cell before it in Y; a cell of the first column or row has no such
  neighbour and only loses its own term.
\<close>

theorem C1_velocity_shift:
  assumes "wf_grid g"
    and "map cellType (cells g) = replicate (rowCount g * colCount g) FLUID"
    and "x < colCount g" "y < rowCount g"
  shows "velX (cellAt (pressureSolve timeStepSec g) x y) =
           velX (cellAt g x y) - timeStepSec * pressure (cellAt g x y)
             + (if 0 < x then timeStepSec * pressure (cellAt g (x - 1) y) else 0) \<and>
         velY (cellAt (pressureSolve timeStepSec g) x y) =
           velY (cellAt g x y) - timeStepSec * pressure (cellAt g x y)
             + (if 0 < y then timeStepSec * pressure (cellAt g x (y - 1)) else 0)"
proof -
  have len: "length (cells g) = rowCount g * colCount g"
    using assms(1) by (simp add: wf_grid_def)
  have fl: "cellType (cellAt g a b) = FLUID" if "a < colCount g" "b < rowCount g" for a b
    using len assms(2) that by (rule all_fluid_cellAt)
  have c: "correction timeStepSec g a b = timeStepSec * pressure (cellAt g a b)"
    if "a < colCount g" "b < rowCount g" for a b
    using fl [OF that] by (simp add: correction_def)
  have "x - 1 < colCount g" "y - 1 < rowCount g"
    using assms(3,4) by simp_all
  then show ?thesis
    using assms(3,4) by (simp add: pressureSolve_velX [OF len] pressureSolve_velY [OF len] c)
qed

theorem C1_velocity_shift_witness:
  "wf_grid disturbedGrid \<and>
   map cellType (cells disturbedGrid) = replicate (rowCount disturbedGrid * colCount disturbedGrid) FLUID \<and>
   velX (cellAt (pressureSolve 1 disturbedGrid) 0 1) = - 1 \<and>
   velY (cellAt (pressureSolve 1 disturbedGrid) 0 1) = 0 \<and>
   velX (cellAt (pressureSolve 1 disturbedGrid) 1 1) = 1 \<and>
   velY (cellAt (pressureSolve 1 disturbedGrid) 1 1) = 0"
proof -
  have fl: "map cellType (cells disturbedGrid) =
              replicate (rowCount disturbedGrid * colCount disturbedGrid) FLUID"
    by (simp add: disturbedGrid_cells fluidCell_def numeral_eq_Suc)
  have dims: "(0::nat) < colCount disturbedGrid" "(1::nat) < colCount disturbedGrid"
    "(1::nat) < rowCount disturbedGrid"
    by (simp_all add: disturbedGrid_cells)
  have v: "cellAt disturbedGrid 0 1 = fluidCell 1 0 0" "cellAt disturbedGrid 1 1 = fluidCell 1 1 0"
    "cellAt disturbedGrid 0 0 = fluidCell 1 0 0" "cellAt disturbedGrid 1 0 = fluidCell 1 0 0"
    by (simp_all add: disturbedGrid_cells cellAt_def gridIndex_def)
  show ?thesis
    using C1_velocity_shift [OF wf_disturbedGrid fl dims(1,3), of 1]
      C1_velocity_shift [OF wf_disturbedGrid fl dims(2,3), of 1]
    by (simp add: wf_disturbedGrid fl v [unfolded One_nat_def] fluidCell_def)
qed

text \<open>
  C2. On every grid with at least one row and one column, after \<^verbatim>\<open>boundaryCollide\<close> the
  Y velocity of the bottom row, the X and Y velocity of the top row, the X velocity of
  the left column and the X and Y velocity of the right column are exactly zero.
\<close>

theorem C2_boundary_velocities_zero:
  assumes "wf_grid g"
  shows "(\<forall>x < colCount g.
            velY (cellAt (boundaryCollide g) x 0) = 0 \<and>
            velX (cellAt (boundaryCollide g) x (rowCount g - 1)) = 0 \<and>
            velY (cellAt (boundaryCollide g) x (rowCount g - 1)) = 0) \<and>
         (\<forall>y < rowCount g.
            velX (cellAt (boundaryCollide g) 0 y) = 0 \<and>
            velX (cellAt (boundaryCollide g) (colCount g - 1) y) = 0 \<and>
            velY (cellAt (boundaryCollide g) (colCount g - 1) y) = 0)"
proof -
  have len: "length (cells g) = rowCount g * colCount g"
    and pos: "0 < rowCount g" "0 < colCount g"
    using assms by (simp_all add: wf_grid_def)
  have eq: "cellAt (boundaryCollide g) x y =
              rowEffect (colCount g) x (columnEffect (rowCount g) y (cellAt g x y))"
    if "x < colCount g" "y < rowCount g" for x y
    using len that by (rule cellAt_boundaryCollide)
  show ?thesis
    using pos by (simp add: eq rowEffect_def columnEffect_def Let_def)
qed

theorem C2_boundary_velocities_zero_witness:
  "wf_grid (uniformGrid 4 4 (fluidCell 1 1 1)) \<and>
   velY (cellAt (boundaryCollide (uniformGrid 4 4 (fluidCell 1 1 1))) 2 0) = 0 \<and>
   velX (cellAt (boundaryCollide (uniformGrid 4 4 (fluidCell 1 1 1))) 2 3) = 0 \<and>
   velY (cellAt (boundaryCollide (uniformGrid 4 4 (fluidCell 1 1 1))) 2 3) = 0 \<and>
   velX (cellAt (boundaryCollide (uniformGrid 4 4 (fluidCell 1 1 1))) 0 1) = 0 \<and>
   velX (cellAt (boundaryCollide (uniformGrid 4 4 (fluidCell 1 1 1))) 3 1) = 0 \<and>
   velY (cellAt (boundaryCollide (uniformGrid 4 4 (fluidCell 1 1 1))) 3 1) = 0"
proof -
  let ?g = "uniformGrid 4 4 (fluidCell 1 1 1)"
  have wf: "wf_grid ?g"
    by (simp add: wf_grid_def uniformGrid_def)
  have dims: "colCount ?g = 4" "rowCount ?g = 4"
    by (simp_all add: uniformGrid_def)
  note all = C2_boundary_velocities_zero [OF wf, unfolded dims]
  have "(2::nat) < 4" and "(1::nat) < 4" by simp_all
  with all have
    "velY (cellAt (boundaryCollide ?g) 2 0) = 0 \<and>
     velX (cellAt (boundaryCollide ?g) 2 (4 - 1)) = 0 \<and>
     velY (cellAt (boundaryCollide ?g) 2 (4 - 1)) = 0"
    "velX (cellAt (boundaryCollide ?g) 0 1) = 0 \<and>
     velX (cellAt (boundaryCollide ?g) (4 - 1) 1) = 0 \<and>
     velY (cellAt (boundaryCollide ?g) (4 - 1) 1) = 0"
    by blast+
  with wf show ?thesis by simp
qed

text \<open>
  C3 asks that the backtraced point be clamped on each axis into that axis's range
  before the field is sampled. The second test of the source compares \<open>y\<close> with the
  width and assigns \<open>x\<close>. In a 4 by 4 grid whose field is \<open>(-10, 0)\<close> everywhere and
  with time step 1, the face at \<open>(3, 1/2)\<close> is traced back to \<open>(13, 1/2)\<close> and sampled
  there, beyond the width 4, where a clamp on each axis gives \<open>(4, 1/2)\<close>; and in a grid
  of width 2 and height 8 the point \<open>(1, 5)\<close>, which is in range on both axes, is moved
  to \<open>(2, 5)\<close>.
\<close>

theorem C3_backtrace_not_clamped:
  "sourcePoint (\<lambda>g p. (- 10, 0)) 1 (uniformGrid 4 4 (fluidCell 1 (- 10) 0)) (3, 1 / 2) = (13, 1 / 2) \<and>
   getWidth (uniformGrid 4 4 (fluidCell 1 (- 10) 0)) = 4 \<and>
   clampPerAxis_spec (uniformGrid 4 4 (fluidCell 1 (- 10) 0)) (13, 1 / 2) = (4, 1 / 2) \<and>
   clampBacktrace (uniformGrid 2 8 (fluidCell 1 0 0)) (1, 5) = (2, 5) \<and>
   clampPerAxis_spec (uniformGrid 2 8 (fluidCell 1 0 0)) (1, 5) = (1, 5)"
  by (simp add: sourcePoint_def clampBacktrace_def clampPerAxis_spec_def vadd_def vscale_def
      uniformGrid_def Let_def)

text \<open>
  C4 asks that \<^verbatim>\<open>pressureSolve\<close> leave the velocities of every cell that is not FLUID
  unchanged. A FLUID cell adds its correction to the faces of its \<open>+X\<close> and \<open>+Y\<close>
  neighbours without looking at their type: in the grid at rest after a boundary pass,
  the SOLID cell at \<open>(3, 1)\<close> has X velocity 0 before the call and 1 after it.
\<close>

theorem C4_solid_cell_corrected:
  "cellType (cellAt walledGrid 3 1) = SOLID \<and>
   velX (cellAt walledGrid 3 1) = 0 \<and>
   velX (cellAt (pressureSolve 1 walledGrid) 3 1) = 1"
proof -
  have len: "length (cells walledGrid) = rowCount walledGrid * colCount walledGrid"
    using wf_walledGrid by (simp add: wf_grid_def)
  have dims: "colCount walledGrid = 4" "rowCount walledGrid = 4"
    by (simp_all add: walledGrid_def uniformGrid_def)
  have a: "cellAt walledGrid 3 1 = (fluidCell 1 0 0)\<lparr>cellType := SOLID\<rparr>"
    by (simp add: cellAt_walledGrid rowEffect_def columnEffect_def fluidCell_def)
  have b: "cellAt walledGrid 2 1 = fluidCell 1 0 0"
    by (simp add: cellAt_walledGrid rowEffect_def columnEffect_def)
  have "velX (cellAt (pressureSolve 1 walledGrid) 3 1) =
          velX (cellAt walledGrid 3 1) - correction 1 walledGrid 3 1
            + (if 0 < (3::nat) then correction 1 walledGrid (3 - 1) 1 else 0)"
    using len by (rule pressureSolve_velX) (simp_all add: dims)
  then show ?thesis
    by (simp add: correction_def a [unfolded One_nat_def] b [unfolded One_nat_def] fluidCell_def)
qed

text \<open>
  C4, as the code has it. A cell that is not FLUID never gives up a correction of its
  own. Its velocities change only by what the FLUID cells before it add to the shared
  faces: its X velocity grows by the time step times the pressure of the cell before
  it in X when that cell is FLUID, its Y velocity likewise with the cell before it in
  Y, and otherwise they stay.
\<close>

theorem C4_passive_cell_velocity:
  assumes "wf_grid g" and "x < colCount g" and "y < rowCount g"
    and "cellType (cellAt g x y) \<noteq> FLUID"
  shows "velX (cellAt (pressureSolve timeStepSec g) x y) =
           velX (cellAt g x y)
             + (if 0 < x \<and> cellType (cellAt g (x - 1) y) = FLUID
                then timeStepSec * pressure (cellAt g (x - 1) y) else 0) \<and>
         velY (cellAt (pressureSolve timeStepSec g) x y) =
           velY (cellAt g x y)
             + (if 0 < y \<and> cellType (cellAt g x (y - 1)) = FLUID
                then timeStepSec * pressure (cellAt g x (y - 1)) else 0)"
proof -
  have len: "length (cells g) = rowCount g * colCount g"
    using assms(1) by (simp add: wf_grid_def)
  have own: "correction timeStepSec g x y = 0"
    using assms(4) by (simp add: correction_def)
  show ?thesis
    using assms(2,3)
    by (simp add: pressureSolve_velX [OF len] pressureSolve_velY [OF len] own)
      (simp add: correction_def)
qed

theorem C4_passive_cell_velocity_witness:
  "wf_grid walledGrid \<and> cellType (cellAt walledGrid 3 3) \<noteq> FLUID \<and>
   cellType (cellAt walledGrid 2 3) \<noteq> FLUID \<and> cellType (cellAt walledGrid 3 2) \<noteq> FLUID \<and>
   velX (cellAt (pressureSolve 1 walledGrid) 3 3) = velX (cellAt walledGrid 3 3) \<and>
   velY (cellAt (pressureSolve 1 walledGrid) 3 3) = velY (cellAt walledGrid 3 3)"
proof -
  have dims: "(3::nat) < colCount walledGrid" "(3::nat) < rowCount walledGrid"
    by (simp_all add: walledGrid_def uniformGrid_def)
  have t: "cellType (cellAt walledGrid 3 3) \<noteq> FLUID" "cellType (cellAt walledGrid 2 3) \<noteq> FLUID"
    "cellType (cellAt walledGrid 3 2) \<noteq> FLUID"
    by (simp_all add: cellAt_walledGrid rowEffect_def columnEffect_def fluidCell_def)
  show ?thesis
    using C4_passive_cell_velocity [OF wf_walledGrid dims t(1), of 1] t by (simp add: wf_walledGrid)
qed

text \<open>
  C5 asks that every cell of the four outermost rows and columns be SOLID after
  \<^verbatim>\<open>boundaryCollide\<close>. The function writes the type of the top row and of the right
  column only: in a 4 by 4 grid of FLUID cells the corner \<open>(0, 0)\<close>, the bottom cell
  \<open>(2, 0)\<close> and the left cell \<open>(0, 2)\<close> are still FLUID afterwards.
\<close>

theorem C5_corner_stays_fluid:
  "cellType (cellAt (uniformGrid 4 4 (fluidCell 1 1 1)) 0 0) = FLUID \<and>
   cellType (cellAt (boundaryCollide (uniformGrid 4 4 (fluidCell 1 1 1))) 0 0) = FLUID \<and>
   cellType (cellAt (boundaryCollide (uniformGrid 4 4 (fluidCell 1 1 1))) 2 0) = FLUID \<and>
   cellType (cellAt (boundaryCollide (uniformGrid 4 4 (fluidCell 1 1 1))) 0 2) = FLUID"
proof -
  let ?g = "uniformGrid 4 4 (fluidCell 1 1 1)"
  have eq: "cellAt (boundaryCollide ?g) x y =
              rowEffect (colCount ?g) x (columnEffect (rowCount ?g) y (cellAt ?g x y))"
    if "x < 4" "y < 4" for x y
    using that by (intro cellAt_boundaryCollide) (simp_all add: uniformGrid_def)
  have dims: "colCount ?g = 4" "rowCount ?g = 4"
    by (simp_all add: uniformGrid_def)
  have "cellType (fluidCell 1 1 1) = FLUID"
    by (simp add: fluidCell_def)
  then show ?thesis
    by (simp add: eq dims cellAt_uniformGrid rowEffect_def columnEffect_def)
qed

text \<open>
  C5, as the code has it. After \<^verbatim>\<open>boundaryCollide\<close> every cell of the top row and of
  the right column is SOLID, and every other cell, those of the bottom row and of the
  left column included, has the type it had before.
\<close>

theorem C5_top_and_right_solid:
  assumes "wf_grid g" and "x < colCount g" and "y < rowCount g"
  shows "cellType (cellAt (boundaryCollide g) x y) =
           (if y = rowCount g - 1 \<or> x = colCount g - 1 then SOLID else cellType (cellAt g x y))"
proof -
  have len: "length (cells g) = rowCount g * colCount g"
    using assms(1) by (simp add: wf_grid_def)
  show ?thesis
    by (simp add: cellAt_boundaryCollide [OF len assms(2,3)] rowEffect_def columnEffect_def Let_def)
qed

theorem C5_top_and_right_solid_witness:
  "wf_grid (uniformGrid 4 4 (fluidCell 1 1 1)) \<and>
   cellType (cellAt (boundaryCollide (uniformGrid 4 4 (fluidCell 1 1 1))) 1 3) = SOLID \<and>
   cellType (cellAt (boundaryCollide (uniformGrid 4 4 (fluidCell 1 1 1))) 3 1) = SOLID \<and>
   cellType (cellAt (boundaryCollide (uniformGrid 4 4 (fluidCell 1 1 1))) 1 1) = FLUID"
proof -
  let ?g = "uniformGrid 4 4 (fluidCell 1 1 1)"
  have wf: "wf_grid ?g" by (simp add: wf_uniformGrid)
  have dims: "colCount ?g = 4" "rowCount ?g = 4"
    by (simp_all add: uniformGrid_def)
  have "(1::nat) < colCount ?g" "(3::nat) < colCount ?g" "(1::nat) < rowCount ?g" "(3::nat) < rowCount ?g"
    by (simp_all add: dims)
  moreover have "cellType (fluidCell 1 1 1) = FLUID"
    by (simp add: fluidCell_def)
  ultimately show ?thesis
    using C5_top_and_right_solid [OF wf, of 1 3] C5_top_and_right_solid [OF wf, of 3 1]
      C5_top_and_right_solid [OF wf, of 1 1]
    by (simp add: wf dims cellAt_uniformGrid)
qed

text \<open>
  C7. For a solver of width 4 and height 4, \<^verbatim>\<open>reset\<close> leaves exactly 256 particles:
  for each of the sixteen cells \<open>(x, y)\<close>, row by row, the sixteen tracers at
  \<open>(x + 0.2 (i + 1), y + 0.2 (j + 1))\<close> with \<open>i\<close> and \<open>j\<close> from 0 to 3, all at different
  positions. The sixteen cells are all FLUID with pressure 1, and the frame-ready flag
  is false.
\<close>

theorem C7_reset_4x4:
  assumes "width s = 4" and "height s = 4"
  shows "particles (reset s) =
           [(real x + 0.20 * real (i + 1), real y + 0.20 * real (j + 1)).
              y \<leftarrow> [0..<4], x \<leftarrow> [0..<4], i \<leftarrow> [0..<4], j \<leftarrow> [0..<4]] \<and>
         length (particles (reset s)) = 256 \<and>
         distinct (particles (reset s)) \<and>
         map cellType (cells (grid (reset s))) = replicate 16 FLUID \<and>
         map pressure (cells (grid (reset s))) = replicate 16 1 \<and>
         \<not> frameReady (reset s)"
proof -
  have ps: "particles (reset s) =
              [(real x + 0.20 * real (i + 1), real y + 0.20 * real (j + 1)).
                 y \<leftarrow> [0..<4], x \<leftarrow> [0..<4], i \<leftarrow> [0..<4], j \<leftarrow> [0..<4]]"
    using assms by (simp add: reset_particles_eq countUp_def)
  have "length (particles (reset s)) = 256"
    using assms by (simp add: reset_particles)
  moreover have "distinct (particles (reset s))"
    unfolding ps by (rule tracers_distinct)
  moreover have "map cellType (cells (grid (reset s))) = replicate 16 FLUID"
    using assms
    by (simp add: reset_def countUp_0_4 resetCell_def Let_def modifyCell_def modifyIndex_def
        gridIndex_def newGrid_def numeral_eq_Suc defaultCell_def)
  moreover have "map pressure (cells (grid (reset s))) = replicate 16 1"
    using assms
    by (simp add: reset_def countUp_0_4 resetCell_def Let_def modifyCell_def modifyIndex_def
        gridIndex_def newGrid_def numeral_eq_Suc defaultCell_def)
  moreover have "\<not> frameReady (reset s)"
    by (simp add: reset_def Let_def)
  ultimately show ?thesis
    using ps by simp
qed

theorem C7_reset_4x4_witness:
  "newFluidSolver 4 4 = Some (reset (solverOn (newGrid 4 4) False)) \<and>
   width (solverOn (newGrid 4 4) False) = 4 \<and> height (solverOn (newGrid 4 4) False) = 4 \<and>
   take 16 (particles (reset (solverOn (newGrid 4 4) False))) =
     [(0.2, 0.2), (0.2, 0.4), (0.2, 0.6), (0.2, 0.8),
      (0.4, 0.2), (0.4, 0.4), (0.4, 0.6), (0.4, 0.8),
      (0.6, 0.2), (0.6, 0.4), (0.6, 0.6), (0.6, 0.8),
      (0.8, 0.2), (0.8, 0.4), (0.8, 0.6), (0.8, 0.8)] \<and>
   particles (reset (solverOn (newGrid 4 4) False)) ! 16 = (1.2, 0.2) \<and>
   particles (reset (solverOn (newGrid 4 4) False)) ! 255 = (3.8, 3.8) \<and>
   length (particles (reset (solverOn (newGrid 4 4) False))) = 256 \<and>
   distinct (particles (reset (solverOn (newGrid 4 4) False))) \<and>
   map cellType (cells (grid (reset (solverOn (newGrid 4 4) False)))) = replicate 16 FLUID \<and>
   map pressure (cells (grid (reset (solverOn (newGrid 4 4) False)))) = replicate 16 1 \<and>
   \<not> frameReady (reset (solverOn (newGrid 4 4) False))"
proof -
  let ?s = "solverOn (newGrid 4 4) False"
  have wh: "width ?s = 4" "height ?s = 4"
    by (simp_all add: solverOn_def newGrid_def)
  note r = C7_reset_4x4 [OF wh]
  note ps = r [THEN conjunct1]
  note rest = r [THEN conjunct2]
  have first: "take 16 (particles (reset ?s)) =
     [(0.2, 0.2), (0.2, 0.4), (0.2, 0.6), (0.2, 0.8),
      (0.4, 0.2), (0.4, 0.4), (0.4, 0.6), (0.4, 0.8),
      (0.6, 0.2), (0.6, 0.4), (0.6, 0.6), (0.6, 0.8),
      (0.8, 0.2), (0.8, 0.4), (0.8, 0.6), (0.8, 0.8)]"
    unfolding ps by (simp add: upt_0_4)
  have next_cell: "particles (reset ?s) ! 16 = (1.2, 0.2)"
    unfolding ps by (simp add: upt_0_4)
  have last_one: "particles (reset ?s) ! 255 = (3.8, 3.8)"
    unfolding ps by (simp add: upt_0_4)
  have made: "newFluidSolver 4 4 = Some (reset ?s)"
    by (simp add: solverOn_def newGrid_def newFluidSolver_def)
  show ?thesis
    by (simp only: made wh first next_cell last_one rest simp_thms)
qed




text \<open>
  C9. No stage of a time step writes a pressure: the pressures of the cells after
  \<^verbatim>\<open>advanceTimeStep\<close> are those before it, whatever the grid, the time step and the
  sampling function, and \<^verbatim>\<open>pressureSolve\<close> itself, which computes a divergence vector
  and drops it, leaves every pressure as it was.
\<close>

theorem C9_pressure_never_written:
  "map pressure (cells (grid (advanceTimeStep getVelocity timeStepSec s))) =
     map pressure (cells (grid s)) \<and>
   map pressure (cells (pressureSolve timeStepSec g)) = map pressure (cells g)"
  by (simp add: advanceTimeStep_def Let_def)

text \<open>
  C10. When the frame-ready flag is already set, \<^verbatim>\<open>advanceFrame\<close> returns at once with
  the state it was given: grid, particles and flag are unchanged and no step is taken.
\<close>

theorem C10_ready_frame_is_noop:
  assumes "frameReady s"
  shows "advanceFrame getVelocity getMaxVelocity s = Some s"
  using assms by (simp add: advanceFrame_def advanceFrameLoop.simps)

theorem C10_ready_frame_is_noop_witness:
  "frameReady (solverOn (uniformGrid 4 4 (fluidCell 1 1 1)) True) \<and>
   advanceFrame cellSampler maxVelocity (solverOn (uniformGrid 4 4 (fluidCell 1 1 1)) True) =
     Some (solverOn (uniformGrid 4 4 (fluidCell 1 1 1)) True)"
  using C10_ready_frame_is_noop
    [of "solverOn (uniformGrid 4 4 (fluidCell 1 1 1)) True" cellSampler maxVelocity]
  by (simp add: solverOn_def)

end
